theory Spec2Isabelle
  imports Main "HOL-Library.Word"
begin

unbundle bit_operations_syntax

section \<open>Data model of package ini (parse\_ini.go)\<close>

text \<open>
  The package keeps one \<^verbatim>\<open>fileDetails\<close> object per opened INI file, two package-level
  maps (\<^verbatim>\<open>iniFiler\<close>, the registry of handles, and \<^verbatim>\<open>updaters\<close>, the callbacks per
  file name) and background goroutines that react to file-system events. The INI parser
  (gopkg.in/ini.v1), the file watcher (gopkg.in/fsnotify.v1) and the logger (glog) are
  libraries outside the repository: what they return is an input of the model, and
  logging is left out. The source holds an earlier and a later version of the file;
  \<^verbatim>\<open>NewIniFile\<close>, \<^verbatim>\<open>load\<close>, \<^verbatim>\<open>ReadKey\<close> and \<^verbatim>\<open>keepWatch\<close> are the same in
  both, and the model follows the later one, which adds \<^verbatim>\<open>KeepWatch\<close>,
  \<^verbatim>\<open>MapContents\<close> and \<^verbatim>\<open>LoadIniConfig\<close>. The locks are not modelled: calls and
  turns of goroutines are taken one at a time.
\<close>

subsection \<open>The parsed file\<close>

type_synonym ini_Section = "string \<rightharpoonup> string"

type_synonym ini_File = "string \<rightharpoonup> ini_Section"

text \<open>
  Modelled from the spec: the parser library's accessors \<^verbatim>\<open>Section(name)\<close>,
  \<^verbatim>\<open>Key(name)\<close> and \<^verbatim>\<open>String()\<close> are not part of the repository. The spec
  describes them as a lookup of the key in the section of the snapshot, and the library
  documents that an absent section or key reads as a zero value (the empty string).
  The library also inserts the empty section or key it has just read; a later read sees
  the same empty string, so the model leaves the file as it is.
\<close>

definition Section :: "ini_File \<Rightarrow> string \<Rightarrow> ini_Section" where
  "Section f name = (case f name of None \<Rightarrow> Map.empty | Some s \<Rightarrow> s)"

definition Key_String :: "ini_Section \<Rightarrow> string \<Rightarrow> string" where
  "Key_String s name = (case s name of None \<Rightarrow> [] | Some v \<Rightarrow> v)"

subsection \<open>Errors and results of the library calls\<close>

text \<open>A Go \<^verbatim>\<open>error\<close> value, identified with its message.\<close>

datatype error = Error string

text \<open>\<^verbatim>\<open>fmt.Errorf(prefix + "%v", err)\<close>: a new error whose message is the prefix
  followed by the message of \<^verbatim>\<open>err\<close>.\<close>

fun Errorf :: "string \<Rightarrow> error \<Rightarrow> error" where
  "Errorf prefix (Error msg) = Error (prefix @ msg)"

text \<open>
  What one call \<^verbatim>\<open>ini.Load(fileName)\<close> returns: the Go pair \<^verbatim>\<open>(*ini.File, error)\<close>,
  with \<open>None\<close> for \<^verbatim>\<open>nil\<close>. The library returns \<^verbatim>\<open>(nil, err)\<close> when the file cannot
  be read or parsed and \<^verbatim>\<open>(file, nil)\<close> otherwise.
\<close>

type_synonym load_result = "ini_File option \<times> error option"

text \<open>
  What the watch facility answers during one attempt to start watching:
  the error of \<^verbatim>\<open>fsnotify.NewWatcher()\<close> and the error of \<^verbatim>\<open>watchman.Add(fileName)\<close>.
\<close>

record watch_env =
  newWatcher_err :: "error option"
  add_err :: "error option"

text \<open>An \<^verbatim>\<open>fsnotify.Event\<close>; \<^verbatim>\<open>Op\<close> is a \<^verbatim>\<open>uint32\<close> bit mask.\<close>

record event =
  ev_Name :: string
  ev_Op :: "32 word"

text \<open>The library's constants \<^verbatim>\<open>Create\<close>, \<^verbatim>\<open>Write\<close>, \<^verbatim>\<open>Remove\<close>, \<^verbatim>\<open>Rename\<close>,
  \<^verbatim>\<open>Chmod\<close> are \<^verbatim>\<open>1 << iota\<close>; the code uses \<^verbatim>\<open>Write\<close> only.\<close>

definition fsnotify_Write :: "32 word" where
  "fsnotify_Write = 2"

definition fsnotify_Chmod :: "32 word" where
  "fsnotify_Chmod = 16"

subsection \<open>Handles, goroutines and the package state\<close>

record fileDetails =
  fileName :: string
  watch :: bool
  cfg :: "ini_File option"

text \<open>
  A goroutine started by \<^verbatim>\<open>keepWatch\<close> (it reloads and notifies) or by
  \<^verbatim>\<open>newKeepWatch\<close> (it notifies only). It captures the pointer \<^verbatim>\<open>fd\<close> and owns a
  watcher; \<open>loop_paths\<close> are the paths added to that watcher, the only ones it
  receives events for.
\<close>

datatype loop_kind = ReloadLoop | NotifyLoop

record watch_loop =
  loop_kind :: loop_kind
  loop_fd :: nat
  loop_paths :: "string list"

text \<open>A callback \<^verbatim>\<open>func()\<close> is client code; it is identified by a number, and
  \<open>dispatched\<close> records every \<^verbatim>\<open>go cbUpdateFunc()\<close> in the order of the statements.
  \<open>newWatcher_calls\<close> records every call of \<^verbatim>\<open>fsnotify.NewWatcher()\<close>, with the
  function that made it (by the kind of goroutine it starts) and its handle.\<close>

type_synonym updateFunc = nat

text \<open>
  The package state. \<open>heap\<close> holds the \<^verbatim>\<open>fileDetails\<close> objects, a pointer being an
  index; a package-level map is \<open>None\<close> while it is a \<^verbatim>\<open>nil\<close> map.
\<close>

record world =
  heap :: "fileDetails list"
  iniFiler :: "(string \<rightharpoonup> nat) option"
  updaters :: "(string \<rightharpoonup> updateFunc list) option"
  loops :: "watch_loop list"
  dispatched :: "updateFunc list"
  newWatcher_calls :: "(loop_kind \<times> nat) list"

text \<open>Reading a Go map that may be \<^verbatim>\<open>nil\<close>: a \<^verbatim>\<open>nil\<close> map has no entries.\<close>

definition map_get :: "('k \<rightharpoonup> 'v) option \<Rightarrow> 'k \<Rightarrow> 'v option" where
  "map_get m k = (case m of None \<Rightarrow> None | Some t \<Rightarrow> t k)"

text \<open>\<^verbatim>\<open>fd.cfg = c\<close> and \<^verbatim>\<open>fd.watch = true\<close> through the pointer \<open>a\<close>.\<close>

definition set_cfg :: "nat \<Rightarrow> ini_File option \<Rightarrow> world \<Rightarrow> world" where
  "set_cfg a c w = w\<lparr>heap := (heap w)[a := (heap w ! a)\<lparr>cfg := c\<rparr>]\<rparr>"

definition set_watch :: "nat \<Rightarrow> world \<Rightarrow> world" where
  "set_watch a w = w\<lparr>heap := (heap w)[a := (heap w ! a)\<lparr>watch := True\<rparr>]\<rparr>"

section \<open>The operations\<close>

subsection \<open>ReadKey\<close>

text \<open>
  \<^verbatim>\<open>if val := fd.cfg.Section(section).Key(key).String(); val != "" { return val }\<close>
  \<^verbatim>\<open>return defaultVal\<close>.
  With \<^verbatim>\<open>fd.cfg == nil\<close> the call \<^verbatim>\<open>fd.cfg.Section\<close> reads the fields of a nil
  \<^verbatim>\<open>*ini.File\<close>: the goroutine panics, which is the result \<open>None\<close>.
\<close>

definition ReadKey :: "nat \<Rightarrow> world \<Rightarrow> string \<Rightarrow> string \<Rightarrow> string \<Rightarrow> string option" where
  "ReadKey a w section key defaultVal =
     (case cfg (heap w ! a) of
        None \<Rightarrow> None
      | Some f \<Rightarrow>
          (let val = Key_String (Section f section) key
           in if val \<noteq> [] then Some val else Some defaultVal))"

subsection \<open>update and Register\<close>

text \<open>
  \<^verbatim>\<open>for _, cbUpdateFunc := range updateFunc { go cbUpdateFunc() }\<close>: the loop over
  the slice, one dispatch per element.
\<close>

fun dispatch_all :: "updateFunc list \<Rightarrow> world \<Rightarrow> world" where
  "dispatch_all [] w = w"
| "dispatch_all (cbUpdateFunc # rest) w =
     dispatch_all rest (w\<lparr>dispatched := dispatched w @ [cbUpdateFunc]\<rparr>)"

text \<open>
  \<^verbatim>\<open>updateFunc := updaters[fd.fileName]\<close>; a missing entry (or a nil map) gives the nil
  slice and the function returns.
\<close>

definition update :: "nat \<Rightarrow> world \<Rightarrow> world" where
  "update a w =
     (case map_get (updaters w) (fileName (heap w ! a)) of
        None \<Rightarrow> w
      | Some updateFunc \<Rightarrow> dispatch_all updateFunc w)"

text \<open>
  \<^verbatim>\<open>if updaters == nil { updaters = make(...) }\<close>, then
  \<^verbatim>\<open>updaters[fd.fileName] = append(updaters[fd.fileName], f)\<close>.
\<close>

definition Register :: "nat \<Rightarrow> updateFunc \<Rightarrow> world \<Rightarrow> world" where
  "Register a f w =
     (let m = (case updaters w of None \<Rightarrow> Map.empty | Some t \<Rightarrow> t);
          n = fileName (heap w ! a)
      in w\<lparr>updaters := Some (m(n \<mapsto> (case m n of None \<Rightarrow> [] | Some fs \<Rightarrow> fs) @ [f]))\<rparr>)"

subsection \<open>keepWatch and load\<close>

text \<open>\<^verbatim>\<open>go func() { for { select { ... } } }()\<close>: a new goroutine whose watcher has no
  path yet.\<close>

definition spawn :: "loop_kind \<Rightarrow> nat \<Rightarrow> world \<Rightarrow> world" where
  "spawn k a w = w\<lparr>loops := loops w @ [\<lparr>loop_kind = k, loop_fd = a, loop_paths = []\<rparr>]\<rparr>"

text \<open>A successful \<^verbatim>\<open>watchman.Add(path)\<close> on the watcher of goroutine \<open>i\<close>.\<close>

definition add_path :: "nat \<Rightarrow> string \<Rightarrow> world \<Rightarrow> world" where
  "add_path i p w =
     w\<lparr>loops := (loops w)[i := (loops w ! i)\<lparr>loop_paths := loop_paths (loops w ! i) @ [p]\<rparr>]\<rparr>"

text \<open>\<^verbatim>\<open>watchman, err := fsnotify.NewWatcher()\<close>: the call is recorded; its result is
  the \<open>newWatcher_err\<close> of the environment.\<close>

definition call_NewWatcher :: "loop_kind \<Rightarrow> nat \<Rightarrow> world \<Rightarrow> world" where
  "call_NewWatcher k a w = w\<lparr>newWatcher_calls := newWatcher_calls w @ [(k, a)]\<rparr>"

text \<open>
  \<^verbatim>\<open>keepWatch\<close>: return the error of \<^verbatim>\<open>NewWatcher\<close>; otherwise start the goroutine,
  then \<^verbatim>\<open>watchman.Add(fd.fileName)\<close>; on its error return it (the goroutine stays),
  otherwise \<^verbatim>\<open>fd.watch = true\<close>.
\<close>

definition keepWatch :: "watch_env \<Rightarrow> nat \<Rightarrow> world \<Rightarrow> world \<times> error option" where
  "keepWatch env a w =
     (let w0 = call_NewWatcher ReloadLoop a w
      in case newWatcher_err env of
           Some err \<Rightarrow> (w0, Some err)
         | None \<Rightarrow>
             (let w1 = spawn ReloadLoop a w0
              in case add_err env of
                   Some err \<Rightarrow> (w1, Some err)
                 | None \<Rightarrow>
                     (set_watch a (add_path (length (loops w)) (fileName (heap w1 ! a)) w1),
                      None)))"

text \<open>
  \<^verbatim>\<open>load\<close>: the assignment \<^verbatim>\<open>fd.cfg, err = ini.Load(fd.fileName)\<close> stores the first
  component whatever the second is; then the error is returned if there is one;
  otherwise \<^verbatim>\<open>if !fd.watch { fd.keepWatch() }\<close>, whose result is dropped.
\<close>

definition load :: "load_result \<Rightarrow> watch_env \<Rightarrow> nat \<Rightarrow> world \<Rightarrow> world \<times> error option" where
  "load r env a w =
     (let w1 = set_cfg a (fst r) w
      in case snd r of
           Some err \<Rightarrow> (w1, Some err)
         | None \<Rightarrow>
             (if \<not> watch (heap w1 ! a) then (fst (keepWatch env a w1), None)
              else (w1, None)))"

subsection \<open>NewIniFile\<close>

text \<open>
  The registry is read first; a registered handle is returned at once. Otherwise
  \<^verbatim>\<open>fd := &fileDetails{fileName: fileName}\<close> is allocated and loaded; on a load error
  the result is \<^verbatim>\<open>(nil, err)\<close>; otherwise both package maps are made if they are nil
  and the handle is stored.
\<close>

definition alloc :: "fileDetails \<Rightarrow> world \<Rightarrow> world" where
  "alloc fd w = w\<lparr>heap := heap w @ [fd]\<rparr>"

definition NewIniFile ::
  "string \<Rightarrow> load_result \<Rightarrow> watch_env \<Rightarrow> world \<Rightarrow> world \<times> nat option \<times> error option" where
  "NewIniFile name r env w =
     (case map_get (iniFiler w) name of
        Some f \<Rightarrow> (w, Some f, None)
      | None \<Rightarrow>
          (let fd = length (heap w);
               w1 = alloc \<lparr>fileName = name, watch = False, cfg = None\<rparr> w
           in case load r env fd w1 of
                (w2, Some err) \<Rightarrow> (w2, None, Some err)
              | (w2, None) \<Rightarrow>
                  (let w3 = (case updaters w2 of None \<Rightarrow> w2\<lparr>updaters := Some Map.empty\<rparr>
                             | Some _ \<Rightarrow> w2);
                       m = (case iniFiler w3 of None \<Rightarrow> Map.empty | Some t \<Rightarrow> t)
                   in (w3\<lparr>iniFiler := Some (m(name \<mapsto> fd))\<rparr>, Some fd, None))))"

subsection \<open>MapContents and LoadIniConfig\<close>

text \<open>
  The decoder \<^verbatim>\<open>(*ini.File).MapTo(v)\<close> belongs to the parser library: it is the
  parameter \<open>mapTo\<close>, which returns the record as it has written it and its error.
  On a nil file the method reads the fields of a nil pointer: the panic is \<open>None\<close>.
\<close>

type_synonym 'r decoder = "ini_File \<Rightarrow> 'r \<Rightarrow> 'r \<times> error option"

definition MapContents ::
  "load_result \<Rightarrow> 'r decoder \<Rightarrow> nat \<Rightarrow> 'r \<Rightarrow> world \<Rightarrow> (world \<times> 'r \<times> error option) option" where
  "MapContents r mapTo a v w =
     (let w1 = set_cfg a (fst r) w
      in case snd r of
           Some err \<Rightarrow> Some (w1, v, Some (Errorf ''failed load config file, err: '' err))
         | None \<Rightarrow>
             (case cfg (heap w1 ! a) of
                None \<Rightarrow> None
              | Some f \<Rightarrow> (case mapTo f v of (v', e) \<Rightarrow> Some (w1, v', e))))"

definition LoadIniConfig ::
  "string \<Rightarrow> load_result \<Rightarrow> load_result \<Rightarrow> 'r decoder \<Rightarrow> 'r \<Rightarrow> world
     \<Rightarrow> (world \<times> 'r \<times> nat option \<times> error option) option" where
  "LoadIniConfig name r1 r2 mapTo c w =
     (case snd r1 of
        Some err \<Rightarrow> Some (w, c, None, Some (Errorf ''failed load config file, err: '' err))
      | None \<Rightarrow>
          (let f = length (heap w);
               w1 = alloc \<lparr>fileName = name, watch = False, cfg = fst r1\<rparr> w
           in case MapContents r2 mapTo f c w1 of
                None \<Rightarrow> None
              | Some (w2, c', Some err) \<Rightarrow>
                  Some (w2, c', None, Some (Errorf ''failed to map cfg err: '' err))
              | Some (w2, c', None) \<Rightarrow> Some (w2, c', Some f, None)))"

subsection \<open>KeepWatch\<close>

definition newKeepWatch :: "watch_env \<Rightarrow> nat \<Rightarrow> world \<Rightarrow> world \<times> error option" where
  "newKeepWatch env a w =
     (let w0 = call_NewWatcher NotifyLoop a w
      in case newWatcher_err env of
           Some err \<Rightarrow>
             (w0, Some (Errorf ''failed to create new watcher for INI file err: '' err))
         | None \<Rightarrow>
             (let w1 = spawn NotifyLoop a w0
              in case add_err env of
                   Some err \<Rightarrow>
                     (w1, Some (Errorf ''Failed add new watcher for INI file err: '' err))
                 | None \<Rightarrow> (add_path (length (loops w)) (fileName (heap w1 ! a)) w1, None)))"

definition KeepWatch :: "watch_env \<Rightarrow> nat \<Rightarrow> world \<Rightarrow> world \<times> error option" where
  "KeepWatch env a w = newKeepWatch env a w"

subsection \<open>The goroutines\<close>

text \<open>
  One turn of \<^verbatim>\<open>for { select { case event := <-watchman.Events: ... } }\<close>: what a
  goroutine does with one event it has received. The goroutine of \<^verbatim>\<open>keepWatch\<close> runs
  \<^verbatim>\<open>fd.load(); fd.update()\<close> on a write and drops both results; the goroutine of
  \<^verbatim>\<open>newKeepWatch\<close> runs \<^verbatim>\<open>fd.update()\<close>. \<open>r\<close> and \<open>env\<close> are what the parser and
  the watch facility answer if they are called in this turn.
\<close>

definition is_Write :: "event \<Rightarrow> bool" where
  "is_Write ev = (ev_Op ev AND fsnotify_Write = fsnotify_Write)"

definition keepWatch_loop :: "event \<Rightarrow> load_result \<Rightarrow> watch_env \<Rightarrow> nat \<Rightarrow> world \<Rightarrow> world" where
  "keepWatch_loop ev r env a w =
     (if is_Write ev then update a (fst (load r env a w)) else w)"

definition newKeepWatch_loop :: "event \<Rightarrow> nat \<Rightarrow> world \<Rightarrow> world" where
  "newKeepWatch_loop ev a w = (if is_Write ev then update a w else w)"

definition loop_turn :: "watch_loop \<Rightarrow> event \<Rightarrow> load_result \<Rightarrow> watch_env \<Rightarrow> world \<Rightarrow> world" where
  "loop_turn l ev r env w =
     (case loop_kind l of
        ReloadLoop \<Rightarrow> keepWatch_loop ev r env (loop_fd l) w
      | NotifyLoop \<Rightarrow> newKeepWatch_loop ev (loop_fd l) w)"

subsection \<open>Runs of the package\<close>

text \<open>
  A client calls the exported functions on handles it was given, and the watch
  facility delivers events to the goroutines whose watcher holds the path. One step is
  one such call or one turn of a goroutine; \<open>None\<close> is a panic of the process. The
  goroutines never return, so a run holds the events they have received so far. A
  method call on a pointer that is not allocated, and an event for a goroutine that does
  not exist or does not watch the path, cannot happen and are steps that do nothing.
\<close>

datatype 'r op =
    Op_NewIniFile string load_result watch_env
  | Op_LoadIniConfig string load_result load_result "'r decoder" 'r
  | Op_ReadKey nat string string string
  | Op_Register nat updateFunc
  | Op_KeepWatch nat watch_env
  | Op_MapContents nat load_result "'r decoder" 'r
  | Op_Event nat event load_result watch_env

fun step :: "'r op \<Rightarrow> world \<Rightarrow> world option" where
  "step (Op_NewIniFile name r env) w = Some (fst (NewIniFile name r env w))"
| "step (Op_LoadIniConfig name r1 r2 mapTo c) w =
     map_option fst (LoadIniConfig name r1 r2 mapTo c w)"
| "step (Op_ReadKey a s k d) w =
     (if a < length (heap w) then map_option (\<lambda>_. w) (ReadKey a w s k d) else Some w)"
| "step (Op_Register a f) w =
     (if a < length (heap w) then Some (Register a f w) else Some w)"
| "step (Op_KeepWatch a env) w =
     (if a < length (heap w) then Some (fst (KeepWatch env a w)) else Some w)"
| "step (Op_MapContents a r mapTo v) w =
     (if a < length (heap w) then map_option fst (MapContents r mapTo a v w) else Some w)"
| "step (Op_Event i ev r env) w =
     (if i < length (loops w) \<and> ev_Name ev \<in> set (loop_paths (loops w ! i))
      then Some (loop_turn (loops w ! i) ev r env w) else Some w)"

fun run :: "'r op list \<Rightarrow> world \<Rightarrow> world option" where
  "run [] w = Some w"
| "run (x # xs) w = (case step x w of None \<Rightarrow> None | Some w' \<Rightarrow> run xs w')"

text \<open>The package state when the program starts: both maps are nil.\<close>

definition init_world :: world where
  "init_world =
     \<lparr>heap = [], iniFiler = None, updaters = None, loops = [], dispatched = [],
      newWatcher_calls = []\<rparr>"

section \<open>Notions used in the statements\<close>

text \<open>The callbacks registered for the path of handle \<open>a\<close>, in registration order:
  the slice \<^verbatim>\<open>updaters[fd.fileName]\<close>.\<close>

definition registered :: "nat \<Rightarrow> world \<Rightarrow> updateFunc list" where
  "registered a w =
     (case map_get (updaters w) (fileName (heap w ! a)) of None \<Rightarrow> [] | Some fs \<Rightarrow> fs)"

text \<open>Successive calls of \<^verbatim>\<open>fd.load()\<close> on one handle, each with the answers of the
  parser and of the watch facility at that moment; errors are dropped, as the goroutine
  drops them.\<close>

fun loads :: "(load_result \<times> watch_env) list \<Rightarrow> nat \<Rightarrow> world \<Rightarrow> world" where
  "loads [] a w = w"
| "loads ((r, env) # rest) a w = loads rest a (fst (load r env a w))"

text \<open>The calls in a sequence of loads at which \<^verbatim>\<open>fd.watch\<close> goes from false to
  true.\<close>

definition flips :: "(load_result \<times> watch_env) list \<Rightarrow> nat \<Rightarrow> world \<Rightarrow> nat list" where
  "flips rs a w =
     filter (\<lambda>i. \<not> watch (heap (loads (take i rs) a w) ! a)
                \<and> watch (heap (loads (take (Suc i) rs) a w) ! a)) [0..<length rs]"

text \<open>The goroutines that \<^verbatim>\<open>keepWatch\<close> has started for handle \<open>a\<close>.\<close>

definition reload_loops :: "nat \<Rightarrow> world \<Rightarrow> watch_loop list" where
  "reload_loops a w = filter (\<lambda>l. loop_kind l = ReloadLoop \<and> loop_fd l = a) (loops w)"

text \<open>The calls of \<^verbatim>\<open>fsnotify.NewWatcher()\<close> that \<^verbatim>\<open>keepWatch\<close> has made for handle
  \<open>a\<close>.\<close>

definition reload_calls :: "nat \<Rightarrow> world \<Rightarrow> (loop_kind \<times> nat) list" where
  "reload_calls a w = filter (\<lambda>c. c = (ReloadLoop, a)) (newWatcher_calls w)"

text \<open>
  Facts that hold in every state the package reaches: each goroutine and each recorded
  call points to an allocated handle, and a goroutine of \<^verbatim>\<open>keepWatch\<close> whose watcher
  holds a path belongs to a handle whose flag is set; and for no handle has
  \<^verbatim>\<open>keepWatch\<close> run twice.
\<close>

definition armed_ok :: "world \<Rightarrow> bool" where
  "armed_ok w =
     (\<forall>l \<in> set (loops w). loop_fd l < length (heap w)
        \<and> (loop_kind l = ReloadLoop \<and> loop_paths l \<noteq> [] \<longrightarrow> watch (heap w ! loop_fd l)))"

definition once_ok :: "world \<Rightarrow> bool" where
  "once_ok w =
     (armed_ok w
      \<and> (\<forall>c \<in> set (newWatcher_calls w). snd c < length (heap w))
      \<and> (\<forall>a. length (reload_loops a w) \<le> 1 \<and> length (reload_calls a w) \<le> 1))"

text \<open>What a decode leaves behind for handle \<open>a\<close>: the record, the handle's file name
  and its snapshot.\<close>

definition decoded :: "nat \<Rightarrow> world \<times> 'r \<times> 'x \<Rightarrow> 'r \<times> string \<times> ini_File option" where
  "decoded a p = (fst (snd p), fileName (heap (fst p) ! a), cfg (heap (fst p) ! a))"

section \<open>Concrete inputs\<close>

text \<open>The file \<^verbatim>\<open>[server]\<close> / \<^verbatim>\<open>port=8080\<close> of the spec's scenario, and the same file
  rewritten with another port.\<close>

definition ex_file :: ini_File where
  "ex_file = [''server'' \<mapsto> [''port'' \<mapsto> ''8080'']]"

definition ex_file2 :: ini_File where
  "ex_file2 = [''server'' \<mapsto> [''port'' \<mapsto> ''9090'']]"

text \<open>A parse that fails, as the library reports it: no file and an error.\<close>

definition bad_load :: load_result where
  "bad_load = (None, Some (Error ''unclosed section''))"

definition ok_env :: watch_env where
  "ok_env = \<lparr>newWatcher_err = None, add_err = None\<rparr>"

definition no_watcher_env :: watch_env where
  "no_watcher_env = \<lparr>newWatcher_err = Some (Error ''too many open files''), add_err = None\<rparr>"

definition write_ev :: event where
  "write_ev = \<lparr>ev_Name = ''app.ini'', ev_Op = fsnotify_Write\<rparr>"

definition chmod_ev :: event where
  "chmod_ev = \<lparr>ev_Name = ''app.ini'', ev_Op = fsnotify_Chmod\<rparr>"

definition ex_loop :: watch_loop where
  "ex_loop = \<lparr>loop_kind = ReloadLoop, loop_fd = 0, loop_paths = [''app.ini'']\<rparr>"

definition ex_notify :: watch_loop where
  "ex_notify = \<lparr>loop_kind = NotifyLoop, loop_fd = 0, loop_paths = [''app.ini'']\<rparr>"

text \<open>A decoder into a record that holds the port, and one that rejects the file.\<close>

definition port_decoder :: "string decoder" where
  "port_decoder f v = (Key_String (Section f ''server'') ''port'', None)"

definition bad_decoder :: "string decoder" where
  "bad_decoder f v = (v, Some (Error ''bad type''))"

text \<open>A handle that has just been allocated; the state after \<^verbatim>\<open>NewIniFile("app.ini")\<close>;
  the same after two callbacks were registered; the state after
  \<^verbatim>\<open>LoadIniConfig("app.ini", &port)\<close>.\<close>

definition fresh_world :: world where
  "fresh_world = alloc \<lparr>fileName = ''app.ini'', watch = False, cfg = None\<rparr> init_world"

definition ex_opened :: world where
  "ex_opened =
     \<lparr>heap = [\<lparr>fileName = ''app.ini'', watch = True, cfg = Some ex_file\<rparr>],
      iniFiler = Some [''app.ini'' \<mapsto> 0],
      updaters = Some Map.empty,
      loops = [ex_loop],
      dispatched = [],
      newWatcher_calls = [(ReloadLoop, 0)]\<rparr>"

definition ex_world :: world where
  "ex_world =
     \<lparr>heap = [\<lparr>fileName = ''app.ini'', watch = True, cfg = Some ex_file\<rparr>],
      iniFiler = Some [''app.ini'' \<mapsto> 0],
      updaters = Some [''app.ini'' \<mapsto> [1, 2]],
      loops = [ex_loop],
      dispatched = [],
      newWatcher_calls = [(ReloadLoop, 0)]\<rparr>"

definition ex_loaded :: world where
  "ex_loaded =
     \<lparr>heap = [\<lparr>fileName = ''app.ini'', watch = False, cfg = Some ex_file\<rparr>],
      iniFiler = None,
      updaters = None,
      loops = [],
      dispatched = [],
      newWatcher_calls = []\<rparr>"

section \<open>Auxiliary facts\<close>

lemmas prim_defs = set_cfg_def set_watch_def spawn_def add_path_def alloc_def call_NewWatcher_def

lemmas op_defs = NewIniFile_def LoadIniConfig_def MapContents_def KeepWatch_def newKeepWatch_def
  keepWatch_def load_def update_def Register_def ReadKey_def loop_turn_def keepWatch_loop_def
  newKeepWatch_loop_def map_get_def prim_defs Let_def Section_def Key_String_def

lemmas ex_defs = ex_file_def ex_file2_def ok_env_def ex_world_def ex_opened_def ex_loaded_def
  fresh_world_def write_ev_def chmod_ev_def bad_load_def no_watcher_env_def port_decoder_def
  bad_decoder_def ex_loop_def ex_notify_def init_world_def is_Write_def fsnotify_Write_def
  fsnotify_Chmod_def

lemma dispatch_all_eq: "dispatch_all fs w = w\<lparr>dispatched := dispatched w @ fs\<rparr>"
  by (induction fs arbitrary: w) simp_all

lemma update_eq: "update a w = w\<lparr>dispatched := dispatched w @ registered a w\<rparr>"
  by (simp add: update_def registered_def dispatch_all_eq split: option.splits)

lemma nth_update_same:
  assumes "\<And>x. f (g x) = f x"
  shows "f (xs[a := g (xs ! a)] ! b) = f (xs ! b)"
proof (cases "a < length xs")
  case True
  then show ?thesis using assms by (cases "b = a") simp_all
next
  case False
  then show ?thesis by (simp add: list_update_beyond)
qed

lemma heap_update_simps:
  "fileName (xs[a := (xs ! a)\<lparr>cfg := c\<rparr>] ! b) = fileName (xs ! b)"
  "watch (xs[a := (xs ! a)\<lparr>cfg := c\<rparr>] ! b) = watch (xs ! b)"
  "fileName (xs[a := (xs ! a)\<lparr>watch := True\<rparr>] ! b) = fileName (xs ! b)"
  "cfg (xs[a := (xs ! a)\<lparr>watch := True\<rparr>] ! b) = cfg (xs ! b)"
  by (rule nth_update_same, simp)+

lemma watch_update_mono:
  "watch (xs ! b) \<Longrightarrow> watch (xs[a := (xs ! a)\<lparr>watch := True\<rparr>] ! b)"
  by (cases "a < length xs"; cases "b = a") (simp_all add: list_update_beyond)

lemma keepWatch_frame:
  "iniFiler (fst (keepWatch env a w)) = iniFiler w"
  "updaters (fst (keepWatch env a w)) = updaters w"
  "dispatched (fst (keepWatch env a w)) = dispatched w"
  "length (heap (fst (keepWatch env a w))) = length (heap w)"
  "fileName (heap (fst (keepWatch env a w)) ! b) = fileName (heap w ! b)"
  "cfg (heap (fst (keepWatch env a w)) ! b) = cfg (heap w ! b)"
  by (auto simp: keepWatch_def prim_defs Let_def heap_update_simps split: option.splits)

lemma keepWatch_watch_mono:
  "watch (heap w ! b) \<Longrightarrow> watch (heap (fst (keepWatch env a w)) ! b)"
  by (auto simp: keepWatch_def prim_defs Let_def watch_update_mono split: option.splits)

lemma load_frame:
  "iniFiler (fst (load r env a w)) = iniFiler w"
  "updaters (fst (load r env a w)) = updaters w"
  "dispatched (fst (load r env a w)) = dispatched w"
  "length (heap (fst (load r env a w))) = length (heap w)"
  "fileName (heap (fst (load r env a w)) ! b) = fileName (heap w ! b)"
  by (auto simp: load_def keepWatch_frame set_cfg_def Let_def heap_update_simps split: option.splits)

lemma load_cfg:
  "a < length (heap w) \<Longrightarrow> cfg (heap (fst (load r env a w)) ! a) = fst r"
  by (auto simp: load_def keepWatch_frame set_cfg_def Let_def split: option.splits)

lemma load_err: "snd (load r env a w) = snd r"
  by (auto simp: load_def Let_def split: option.splits)

lemma load_watch_mono:
  "watch (heap w ! b) \<Longrightarrow> watch (heap (fst (load r env a w)) ! b)"
  by (auto simp: load_def set_cfg_def Let_def heap_update_simps intro!: keepWatch_watch_mono split: option.splits)

lemma load_watching:
  assumes "a < length (heap w)" "watch (heap w ! a)"
  shows "loops (fst (load r env a w)) = loops w"
    and "newWatcher_calls (fst (load r env a w)) = newWatcher_calls w"
  using assms by (auto simp: load_def set_cfg_def Let_def split: option.splits)

lemma load_failed:
  "snd r \<noteq> None \<Longrightarrow> load r env a w = (set_cfg a (fst r) w, snd r)"
  by (auto simp: load_def Let_def split: option.splits)

lemma registered_load: "registered a (fst (load r env b w)) = registered a w"
  by (simp add: registered_def load_frame)

lemma loads_append: "loads (xs @ ys) a w = loads ys a (loads xs a w)"
  by (induction xs arbitrary: w) auto

lemma loads_length: "length (heap (loads rs a w)) = length (heap w)"
  by (induction rs arbitrary: w) (auto simp: load_frame)

lemma loads_fileName: "fileName (heap (loads rs a w) ! b) = fileName (heap w ! b)"
  by (induction rs arbitrary: w) (auto simp: load_frame)

lemma loads_watch_mono: "watch (heap w ! b) \<Longrightarrow> watch (heap (loads rs a w) ! b)"
  by (induction rs arbitrary: w) (auto simp: load_watch_mono)

lemma loads_watching:
  "a < length (heap w) \<Longrightarrow> watch (heap w ! a) \<Longrightarrow>
     loops (loads rs a w) = loops w \<and> newWatcher_calls (loads rs a w) = newWatcher_calls w"
  by (induction rs arbitrary: w) (auto simp: load_watching load_watch_mono load_frame)

lemma load_failed_loops:
  "snd r \<noteq> None \<Longrightarrow> loops (fst (load r env a w)) = loops w
     \<and> newWatcher_calls (fst (load r env a w)) = newWatcher_calls w
     \<and> watch (heap (fst (load r env a w)) ! b) = watch (heap w ! b)"
  by (auto simp: load_failed set_cfg_def heap_update_simps)

lemma loads_all_failed:
  "\<forall>x \<in> set pre. snd (fst x) \<noteq> None \<Longrightarrow>
     loops (loads pre a w) = loops w
     \<and> newWatcher_calls (loads pre a w) = newWatcher_calls w
     \<and> watch (heap (loads pre a w) ! b) = watch (heap w ! b)"
  by (induction pre arbitrary: w) (auto simp: load_failed_loops)

lemma load_first_call:
  assumes "a < length (heap w)" "\<not> watch (heap w ! a)" "snd r = None"
  shows "newWatcher_calls (fst (load r env a w)) = newWatcher_calls w @ [(ReloadLoop, a)]"
  using assms
  by (auto simp: load_def keepWatch_def prim_defs Let_def split: option.splits)

lemma load_first_success:
  assumes "a < length (heap w)" "\<not> watch (heap w ! a)" "snd r = None"
    "newWatcher_err env = None" "add_err env = None"
  shows "loops (fst (load r env a w)) =
           loops w @ [\<lparr>loop_kind = ReloadLoop, loop_fd = a, loop_paths = [fileName (heap w ! a)]\<rparr>]"
    and "watch (heap (fst (load r env a w)) ! a)"
  using assms
  by (auto simp: load_def keepWatch_def prim_defs Let_def heap_update_simps)

lemma take_loads_mono:
  assumes "i \<le> j" "watch (heap (loads (take i rs) a w) ! a)"
  shows "watch (heap (loads (take j rs) a w) ! a)"
proof -
  have "take j rs = take i rs @ take (j - i) (drop i rs)"
    using assms(1) by (metis le_add_diff_inverse take_add)
  then show ?thesis using assms(2) by (simp add: loads_append loads_watch_mono)
qed

lemma flips_at_most_once: "length (flips rs a w) \<le> 1"
proof -
  have d: "distinct (flips rs a w)" by (simp add: flips_def)
  have eq: "i = j" if "i \<in> set (flips rs a w)" "j \<in> set (flips rs a w)" for i j
  proof (rule ccontr)
    assume "i \<noteq> j"
    then consider "Suc i \<le> j" | "Suc j \<le> i" by linarith
    then show False
      using that take_loads_mono [of "Suc i" j rs a w] take_loads_mono [of "Suc j" i rs a w]
      by (auto simp: flips_def)
  qed
  have "card (set (flips rs a w)) \<le> 1"
    using eq by (metis card_le_Suc0_iff_eq List.finite_set One_nat_def)
  then show ?thesis using d by (simp add: distinct_card)
qed

lemma once_ok_init: "once_ok init_world"
  by (simp add: once_ok_def armed_ok_def reload_loops_def reload_calls_def init_world_def)

lemma once_ok_set_cfg: "once_ok w \<Longrightarrow> once_ok (set_cfg a c w)"
  by (auto simp: once_ok_def armed_ok_def reload_loops_def reload_calls_def set_cfg_def heap_update_simps)

lemma once_ok_dispatched: "once_ok w \<Longrightarrow> once_ok (w\<lparr>dispatched := d\<rparr>)"
  by (auto simp: once_ok_def armed_ok_def reload_loops_def reload_calls_def)

lemma once_ok_updaters: "once_ok w \<Longrightarrow> once_ok (w\<lparr>updaters := d\<rparr>)"
  by (auto simp: once_ok_def armed_ok_def reload_loops_def reload_calls_def)

lemma once_ok_iniFiler: "once_ok w \<Longrightarrow> once_ok (w\<lparr>iniFiler := d\<rparr>)"
  by (auto simp: once_ok_def armed_ok_def reload_loops_def reload_calls_def)

lemma once_ok_alloc: "once_ok w \<Longrightarrow> once_ok (alloc fd w)"
  by (auto simp: once_ok_def armed_ok_def reload_loops_def reload_calls_def alloc_def nth_append less_SucI)

lemma reload_loops_fresh:
  "once_ok w \<Longrightarrow> length (heap w) \<le> a \<Longrightarrow> reload_loops a w = [] \<and> reload_calls a w = []"
  by (auto simp: once_ok_def armed_ok_def reload_loops_def reload_calls_def filter_empty_conv)

lemma once_ok_newKeepWatch:
  "once_ok w \<Longrightarrow> a < length (heap w) \<Longrightarrow> once_ok (fst (newKeepWatch env a w))"
  by (auto simp: once_ok_def armed_ok_def reload_loops_def reload_calls_def newKeepWatch_def prim_defs Let_def
      split: option.splits)

lemma once_ok_keepWatch:
  assumes "once_ok w" "a < length (heap w)" "reload_loops a w = []" "reload_calls a w = []"
  shows "once_ok (fst (keepWatch env a w))"
  using assms
  by (auto simp: once_ok_def armed_ok_def reload_loops_def reload_calls_def keepWatch_def prim_defs Let_def
      heap_update_simps watch_update_mono split: option.splits)

lemma once_ok_load_watching:
  assumes "once_ok w" "a < length (heap w)" "watch (heap w ! a)"
  shows "once_ok (fst (load r env a w))"
proof -
  have "watch (heap (set_cfg a (fst r) w) ! a)"
    using assms(3) by (simp add: set_cfg_def heap_update_simps)
  then show ?thesis
    using assms(1) by (auto simp: load_def Let_def once_ok_set_cfg split: option.splits)
qed

lemma once_ok_load_fresh:
  assumes "once_ok w" "a < length (heap w)" "reload_loops a w = []" "reload_calls a w = []"
  shows "once_ok (fst (load r env a w))"
proof -
  have "reload_loops a (set_cfg a (fst r) w) = []" "a < length (heap (set_cfg a (fst r) w))"
    "reload_calls a (set_cfg a (fst r) w) = []"
    using assms by (simp_all add: reload_loops_def reload_calls_def set_cfg_def)
  then show ?thesis
    using assms(1) by (auto simp: load_def Let_def once_ok_set_cfg once_ok_keepWatch split: option.splits)
qed

lemma once_ok_update: "once_ok w \<Longrightarrow> once_ok (update a w)"
  by (simp add: update_eq once_ok_dispatched)

lemma once_ok_Register: "once_ok w \<Longrightarrow> once_ok (Register a f w)"
  by (simp add: Register_def Let_def once_ok_updaters)

lemma once_ok_NewIniFile: "once_ok w \<Longrightarrow> once_ok (fst (NewIniFile name r env w))"
proof -
  assume ok: "once_ok w"
  let ?w1 = "alloc \<lparr>fileName = name, watch = False, cfg = None\<rparr> w"
  have 1: "once_ok ?w1" using ok by (rule once_ok_alloc)
  have 2: "length (heap w) < length (heap ?w1)" by (simp add: alloc_def)
  have "reload_loops (length (heap w)) w = [] \<and> reload_calls (length (heap w)) w = []"
    using ok by (simp add: reload_loops_fresh)
  then have 3: "reload_loops (length (heap w)) ?w1 = []" "reload_calls (length (heap w)) ?w1 = []"
    by (simp_all add: reload_loops_def reload_calls_def alloc_def)
  have "once_ok (fst (load r env (length (heap w)) ?w1))"
    using 1 2 3 by (rule once_ok_load_fresh)
  then show ?thesis
    using ok
    by (auto simp: NewIniFile_def Let_def once_ok_updaters once_ok_iniFiler
        split: option.splits prod.splits)
qed

lemma once_ok_MapContents:
  "once_ok w \<Longrightarrow> MapContents r mapTo a v w = Some (w', v', e) \<Longrightarrow> once_ok w'"
  by (auto simp: MapContents_def Let_def once_ok_set_cfg split: option.splits prod.splits)

lemma once_ok_LoadIniConfig:
  "once_ok w \<Longrightarrow> LoadIniConfig name r1 r2 mapTo c w = Some (w', c', h, e) \<Longrightarrow> once_ok w'"
  by (auto simp: LoadIniConfig_def Let_def split: option.splits prod.splits
      dest: once_ok_MapContents [OF once_ok_alloc])

lemma once_ok_loop_turn:
  assumes "once_ok w" "l \<in> set (loops w)" "loop_paths l \<noteq> []"
  shows "once_ok (loop_turn l ev r env w)"
proof (cases "loop_kind l")
  case ReloadLoop
  then have "loop_fd l < length (heap w)" "watch (heap w ! loop_fd l)"
    using assms by (auto simp: once_ok_def armed_ok_def)
  then show ?thesis
    using assms(1) ReloadLoop
    by (simp add: loop_turn_def keepWatch_loop_def once_ok_update once_ok_load_watching)
next
  case NotifyLoop
  then show ?thesis
    using assms(1) by (simp add: loop_turn_def newKeepWatch_loop_def once_ok_update)
qed

lemma once_ok_step: "once_ok w \<Longrightarrow> step x w = Some w' \<Longrightarrow> once_ok w'"
proof (cases x)
  case (Op_Event i ev r env)
  assume a: "once_ok w" "step x w = Some w'"
  show ?thesis
  proof (cases "i < length (loops w) \<and> ev_Name ev \<in> set (loop_paths (loops w ! i))")
    case True
    then have "loops w ! i \<in> set (loops w)" "loop_paths (loops w ! i) \<noteq> []" by auto
    then show ?thesis
      using a Op_Event True once_ok_loop_turn [of w "loops w ! i" ev r env] by simp
  next
    case False
    then show ?thesis using a Op_Event by auto
  qed
qed (auto simp: once_ok_NewIniFile once_ok_Register KeepWatch_def once_ok_newKeepWatch
      split: if_splits dest: once_ok_MapContents once_ok_LoadIniConfig)

lemma once_ok_run: "once_ok w \<Longrightarrow> run xs w = Some w' \<Longrightarrow> once_ok w'"
  by (induction xs arbitrary: w) (auto split: option.splits dest: once_ok_step)

lemma reachable_once:
  "run xs init_world = Some w \<Longrightarrow>
     length (reload_calls a w) \<le> 1 \<and> length (reload_loops a w) \<le> 1"
  using once_ok_run [OF once_ok_init] by (auto simp: once_ok_def)

lemma reachable_event_no_spawn:
  assumes "run xs init_world = Some w" "step (Op_Event i ev r env) w = Some w'"
  shows "loops w' = loops w \<and> newWatcher_calls w' = newWatcher_calls w"
proof (cases "i < length (loops w) \<and> ev_Name ev \<in> set (loop_paths (loops w ! i))")
  case True
  have ok: "armed_ok w" using once_ok_run [OF once_ok_init assms(1)] by (simp add: once_ok_def)
  let ?l = "loops w ! i"
  have v: "loop_fd ?l < length (heap w)"
    "loop_kind ?l = ReloadLoop \<Longrightarrow> watch (heap w ! loop_fd ?l)"
    using ok True by (auto simp: armed_ok_def)
  show ?thesis
    using assms(2) True v
    by (cases "loop_kind ?l")
      (auto simp: loop_turn_def keepWatch_loop_def newKeepWatch_loop_def update_eq load_watching)
next
  case False
  then show ?thesis using assms(2) by auto
qed

lemma newKeepWatch_frame:
  "iniFiler (fst (newKeepWatch env a w)) = iniFiler w"
  "heap (fst (newKeepWatch env a w)) = heap w"
  "updaters (fst (newKeepWatch env a w)) = updaters w"
  "dispatched (fst (newKeepWatch env a w)) = dispatched w"
  by (auto simp: newKeepWatch_def prim_defs Let_def split: option.splits)

lemma MapContents_frame:
  assumes "MapContents r mapTo a v w = Some (w', v', e)"
  shows "w' = set_cfg a (fst r) w"
  using assms by (auto simp: MapContents_def Let_def split: option.splits prod.splits)

lemma set_cfg_frame:
  "iniFiler (set_cfg a c w) = iniFiler w"
  "loops (set_cfg a c w) = loops w"
  "updaters (set_cfg a c w) = updaters w"
  "dispatched (set_cfg a c w) = dispatched w"
  "newWatcher_calls (set_cfg a c w) = newWatcher_calls w"
  "length (heap (set_cfg a c w)) = length (heap w)"
  by (simp_all add: set_cfg_def)

lemma LoadIniConfig_frame:
  assumes "LoadIniConfig name r1 r2 mapTo c w = Some (w', c', h, e)"
  shows "iniFiler w' = iniFiler w" "loops w' = loops w" "updaters w' = updaters w"
    "dispatched w' = dispatched w" "newWatcher_calls w' = newWatcher_calls w"
  using assms
  by (auto simp: LoadIniConfig_def Let_def alloc_def set_cfg_frame
      split: option.splits prod.splits dest!: MapContents_frame)

lemma loop_turn_iniFiler: "iniFiler (loop_turn l ev r env w) = iniFiler w"
  by (simp add: loop_turn_def keepWatch_loop_def newKeepWatch_loop_def update_eq load_frame
      split: loop_kind.splits)

lemma NewIniFile_registers:
  assumes "NewIniFile name r env w = (w', Some h, None)"
  shows "map_get (iniFiler w') name = Some h"
  using assms
  by (auto simp: NewIniFile_def Let_def map_get_def split: option.splits prod.splits)

lemma NewIniFile_fresh:
  assumes "map_get (iniFiler w) name = None"
  shows "NewIniFile name r env w =
     (let fd = length (heap w);
          w2 = fst (load r env fd (alloc \<lparr>fileName = name, watch = False, cfg = None\<rparr> w))
      in case snd r of
           Some err \<Rightarrow> (w2, None, Some err)
         | None \<Rightarrow>
             (w2\<lparr>updaters := Some (case updaters w of None \<Rightarrow> Map.empty | Some t \<Rightarrow> t),
                 iniFiler := Some ((case iniFiler w of None \<Rightarrow> Map.empty | Some t \<Rightarrow> t)(name \<mapsto> fd))\<rparr>,
              Some fd, None))"
proof -
  let ?w1 = "alloc \<lparr>fileName = name, watch = False, cfg = None\<rparr> w"
  obtain w2 e where l: "load r env (length (heap w)) ?w1 = (w2, e)" by (cases "load r env (length (heap w)) ?w1")
  have e: "e = snd r" using load_err [of r env "length (heap w)" ?w1] l by simp
  have f: "iniFiler w2 = iniFiler w" "updaters w2 = updaters w"
    using load_frame(1,2) [of r env "length (heap w)" ?w1] l by (simp_all add: alloc_def)
  show ?thesis
    using assms l e f by (auto simp: NewIniFile_def Let_def split: option.splits)
qed

lemma NewIniFile_keeps:
  assumes "map_get (iniFiler w) name = Some h"
  shows "map_get (iniFiler (fst (NewIniFile n r env w))) name = Some h"
proof (cases "map_get (iniFiler w) n")
  case None
  then have "n \<noteq> name" using assms by auto
  then show ?thesis
    using assms by (auto simp: NewIniFile_fresh [OF None] Let_def load_frame alloc_def map_get_def
        split: option.splits)
next
  case (Some f)
  then show ?thesis using assms by (simp add: NewIniFile_def)
qed

lemma step_keeps:
  assumes "map_get (iniFiler w) name = Some h" "step x w = Some w'"
  shows "map_get (iniFiler w') name = Some h"
proof (cases x)
  case (Op_NewIniFile n r env)
  then show ?thesis using assms NewIniFile_keeps [of w name h n r env] by simp
next
  case (Op_LoadIniConfig n r1 r2 mapTo c)
  then show ?thesis using assms by (auto simp: LoadIniConfig_frame)
next
  case (Op_MapContents a r mapTo v)
  then show ?thesis
    using assms by (auto simp: set_cfg_frame split: if_splits dest!: MapContents_frame)
next
  case (Op_Event i ev r env)
  then show ?thesis using assms by (auto simp: loop_turn_iniFiler split: if_splits)
qed (use assms in \<open>auto simp: Register_def Let_def KeepWatch_def newKeepWatch_frame split: if_splits\<close>)

lemma run_keeps:
  "map_get (iniFiler w) name = Some h \<Longrightarrow> run xs w = Some w' \<Longrightarrow> map_get (iniFiler w') name = Some h"
  by (induction xs arbitrary: w) (auto split: option.splits dest: step_keeps)

lemma ex_opened_eq:
  "NewIniFile ''app.ini'' (Some ex_file, None) ok_env init_world = (ex_opened, Some 0, None)"
  by (simp add: op_defs ex_defs)

lemma ex_world_registered:
  "run [Op_Register 0 1, Op_Register 0 2 :: string op] ex_opened = Some ex_world"
  by (simp add: op_defs ex_defs)

lemma ex_world_reachable:
  "run [Op_NewIniFile ''app.ini'' (Some ex_file, None) ok_env, Op_Register 0 1,
        Op_Register 0 2 :: string op] init_world = Some ex_world"
  using ex_world_registered by (simp add: ex_opened_eq)

lemma is_Write_write_ev: "is_Write write_ev"
  by (simp add: is_Write_def write_ev_def fsnotify_Write_def)

lemma not_is_Write_chmod_ev: "\<not> is_Write chmod_ev"
  by (simp add: is_Write_def chmod_ev_def fsnotify_Write_def fsnotify_Chmod_def)

lemma ReadKey_returns_iff: "ReadKey a w s k d \<noteq> None \<longleftrightarrow> cfg (heap w ! a) \<noteq> None"
  by (auto simp: ReadKey_def Let_def split: option.splits)

lemma KeepWatch_spawns:
  assumes "newWatcher_err env = None" "add_err env = None"
  shows "loops (fst (KeepWatch env a w)) =
     loops w @ [\<lparr>loop_kind = NotifyLoop, loop_fd = a, loop_paths = [fileName (heap w ! a)]\<rparr>]"
  using assms by (simp add: KeepWatch_def newKeepWatch_def prim_defs Let_def)

lemma KeepWatch_error_iff:
  "snd (KeepWatch env a w) = None \<longleftrightarrow> newWatcher_err env = None \<and> add_err env = None"
  by (auto simp: KeepWatch_def newKeepWatch_def Let_def split: option.splits)

lemma heap_alloc_set_cfg:
  "heap (set_cfg (length (heap w)) c (alloc fd w)) ! length (heap w) = fd\<lparr>cfg := c\<rparr>"
  by (simp add: set_cfg_def alloc_def)

section \<open>The claims\<close>

text \<open>
  C1 says that a reload whose parse fails returns an error and leaves the previous
  snapshot in place, readable by ReadKey. Evaluated on the handle of the spec's scenario
  (\<^verbatim>\<open>port=8080\<close> loaded): \<^verbatim>\<open>load\<close> returns the error, but the assignment
  \<^verbatim>\<open>fd.cfg, err = ini.Load(fd.fileName)\<close> has already stored the nil file, so the
  snapshot is gone and the next ReadKey dereferences nil. \<^verbatim>\<open>MapContents\<close> does the same.
\<close>

theorem failed_reload_drops_snapshot:
  "ReadKey 0 ex_world ''server'' ''port'' ''0'' = Some ''8080''
   \<and> snd (load bad_load ok_env 0 ex_world) = Some (Error ''unclosed section'')
   \<and> cfg (heap (fst (load bad_load ok_env 0 ex_world)) ! 0) = None
   \<and> ReadKey 0 (fst (load bad_load ok_env 0 ex_world)) ''server'' ''port'' ''0'' = None
   \<and> MapContents bad_load port_decoder 0 [] ex_world =
        Some (set_cfg 0 None ex_world, [],
              Some (Error ''failed load config file, err: unclosed section''))
   \<and> ReadKey 0 (set_cfg 0 None ex_world) ''server'' ''port'' ''0'' = None"
  by (simp add: op_defs ex_defs)

text \<open>
  C2 says that ReadKey returns a string in every state a handle can reach, also after
  failed reloads. Evaluated on a run of the exported interface: after
  \<^verbatim>\<open>NewIniFile\<close> the read succeeds; once the goroutine has consumed one write event
  whose re-parse fails, the same read panics.
\<close>

theorem ReadKey_panics_after_failed_reload:
  "run [Op_NewIniFile ''app.ini'' (Some ex_file, None) ok_env,
        Op_ReadKey 0 ''server'' ''port'' ''0'' :: string op] init_world \<noteq> None
   \<and> run [Op_NewIniFile ''app.ini'' (Some ex_file, None) ok_env,
          Op_Event 0 write_ev bad_load ok_env,
          Op_ReadKey 0 ''server'' ''port'' ''0'' :: string op] init_world = None"
  by (simp add: op_defs ex_defs)

text \<open>
  C3. For a handle with a loaded snapshot, and every section, key and default:
  when the key is present in the section with a non-empty value, ReadKey returns that
  value unchanged; when the section is absent, the key is absent or the stored value is
  the empty string, ReadKey returns the default.
\<close>

theorem ReadKey_value_or_default:
  assumes "cfg (heap w ! a) = Some f"
  shows "(f s = Some sec \<and> sec k = Some v \<and> v \<noteq> [] \<longrightarrow> ReadKey a w s k d = Some v)
       \<and> (f s = None \<or> (\<exists>sec. f s = Some sec \<and> (sec k = None \<or> sec k = Some []))
            \<longrightarrow> ReadKey a w s k d = Some d)"
  using assms by (auto simp: ReadKey_def Section_def Key_String_def)

text \<open>The scenario of the spec: \<^verbatim>\<open>[server]\<close>, \<^verbatim>\<open>port=8080\<close>.\<close>

theorem ReadKey_value_or_default_witness:
  "cfg (heap ex_world ! 0) = Some ex_file
   \<and> ReadKey 0 ex_world ''server'' ''port'' ''0'' = Some ''8080''
   \<and> ReadKey 0 ex_world ''server'' ''missing'' ''9090'' = Some ''9090''
   \<and> ReadKey 0 ex_world ''other'' ''port'' ''1'' = Some ''1''"
proof -
  have c: "cfg (heap ex_world ! 0) = Some ex_file" by (simp add: ex_world_def)
  have s: "ex_file ''server'' = Some [''port'' \<mapsto> ''8080'']" by (simp add: ex_file_def)
  have o: "ex_file ''other'' = None" by (simp add: ex_file_def)
  show ?thesis
    using ReadKey_value_or_default [OF c, of "''server''" "[''port'' \<mapsto> ''8080'']" "''port''" "''8080''" "''0''"]
      ReadKey_value_or_default [OF c, of "''server''" _ "''missing''" _ "''9090''"]
      ReadKey_value_or_default [OF c, of "''other''" _ "''port''" _ "''1''"]
      c s o
    by simp
qed

text \<open>
  C4. NewIniFile is idempotent per path: when an open of a path has succeeded with handle
  \<open>h\<close>, then after any further calls and events every later open of that path
  returns the same pointer \<open>h\<close> with a nil error, whatever the file and the watch
  facility answer then, and changes nothing: no second object is made, and the registry
  entry of the path is still \<open>h\<close>. (Calls are taken one after the other.)
\<close>

theorem NewIniFile_idempotent:
  assumes "NewIniFile name r env w = (w1, Some h, None)" and "run xs w1 = Some w2"
  shows "NewIniFile name r' env' w2 = (w2, Some h, None)
       \<and> map_get (iniFiler w2) name = Some h"
proof -
  have "map_get (iniFiler w2) name = Some h"
    using run_keeps [OF NewIniFile_registers [OF assms(1)] assms(2)] .
  then show ?thesis by (simp add: NewIniFile_def)
qed

text \<open>An open, two registrations, and a second open while the file is unreadable.\<close>

theorem NewIniFile_idempotent_witness:
  "NewIniFile ''app.ini'' (Some ex_file, None) ok_env init_world = (ex_opened, Some 0, None)
   \<and> run [Op_Register 0 1, Op_Register 0 2 :: string op] ex_opened = Some ex_world
   \<and> NewIniFile ''app.ini'' bad_load no_watcher_env ex_world = (ex_world, Some 0, None)
   \<and> map_get (iniFiler ex_world) ''app.ini'' = Some 0"
  using NewIniFile_idempotent [OF ex_opened_eq ex_world_registered, of bad_load no_watcher_env]
    ex_opened_eq ex_world_registered
  by simp

text \<open>
  C5, amended. For every write event consumed by a goroutine: the goroutine started by
  \<^verbatim>\<open>keepWatch\<close> calls \<^verbatim>\<open>load\<close> (the handle's snapshot is then what the parser
  returned, also when the parse failed) and then \<^verbatim>\<open>update\<close>; the goroutine started
  by \<^verbatim>\<open>newKeepWatch\<close> calls \<^verbatim>\<open>update\<close> only and changes nothing else. In both,
  \<^verbatim>\<open>update\<close> dispatches the callbacks registered for the handle's path, each entry
  once, in registration order.
\<close>

theorem write_event_turn:
  assumes "is_Write ev" and "loop_fd l < length (heap w)"
  shows "(loop_kind l = ReloadLoop \<longrightarrow>
            cfg (heap (loop_turn l ev r env w) ! loop_fd l) = fst r
          \<and> dispatched (loop_turn l ev r env w) = dispatched w @ registered (loop_fd l) w)
       \<and> (loop_kind l = NotifyLoop \<longrightarrow>
            loop_turn l ev r env w = w\<lparr>dispatched := dispatched w @ registered (loop_fd l) w\<rparr>)"
  using assms
  by (simp add: loop_turn_def keepWatch_loop_def newKeepWatch_loop_def update_eq load_cfg
      load_frame registered_load)

text \<open>A write event with a failing parse, consumed by either kind of goroutine.\<close>

theorem write_event_turn_witness:
  "is_Write write_ev \<and> loop_fd ex_loop < length (heap ex_world)
   \<and> loop_kind ex_loop = ReloadLoop
   \<and> cfg (heap (loop_turn ex_loop write_ev bad_load ok_env ex_world) ! 0) = None
   \<and> dispatched (loop_turn ex_loop write_ev bad_load ok_env ex_world) = [1, 2]
   \<and> loop_kind ex_notify = NotifyLoop
   \<and> loop_turn ex_notify write_ev bad_load ok_env ex_world = ex_world\<lparr>dispatched := [1, 2]\<rparr>"
proof -
  have a: "loop_fd ex_loop < length (heap ex_world)" "loop_fd ex_notify < length (heap ex_world)"
    by (simp_all add: ex_defs)
  have r: "registered 0 ex_world = [1, 2]" "dispatched ex_world = []" "fst bad_load = None"
    "loop_fd ex_loop = 0" "loop_fd ex_notify = 0"
    "loop_kind ex_loop = ReloadLoop" "loop_kind ex_notify = NotifyLoop"
    by (simp_all add: registered_def map_get_def ex_defs)
  show ?thesis
    using write_event_turn [OF is_Write_write_ev a(1), of bad_load ok_env]
      write_event_turn [OF is_Write_write_ev a(2), of bad_load ok_env]
      is_Write_write_ev a r
    by simp
qed

text \<open>C5 as stated fails for the goroutine of \<^verbatim>\<open>newKeepWatch\<close>: on a write event it
  does not reload, and the handle keeps the old snapshot although the file has changed.
  The last part is the same on a run: \<^verbatim>\<open>LoadIniConfig\<close>, \<^verbatim>\<open>KeepWatch\<close>, then a
  write event for the rewritten file.\<close>

theorem notify_loop_skips_load_counterexample:
  "is_Write write_ev
   \<and> loop_turn ex_notify write_ev (Some ex_file2, None) ok_env ex_world
       \<noteq> update 0 (fst (load (Some ex_file2, None) ok_env 0 ex_world))
   \<and> cfg (heap (loop_turn ex_notify write_ev (Some ex_file2, None) ok_env ex_world) ! 0) = Some ex_file
   \<and> cfg (heap (update 0 (fst (load (Some ex_file2, None) ok_env 0 ex_world))) ! 0) = Some ex_file2
   \<and> map_option heap
       (run [Op_LoadIniConfig ''app.ini'' (Some ex_file, None) (Some ex_file, None) port_decoder [],
             Op_KeepWatch 0 ok_env,
             Op_Event 0 write_ev (Some ex_file2, None) ok_env] init_world)
     = Some [\<lparr>fileName = ''app.ini'', watch = False, cfg = Some ex_file\<rparr>]"
proof -
  have c: "map_option heap
       (run [Op_LoadIniConfig ''app.ini'' (Some ex_file, None) (Some ex_file, None) port_decoder [],
             Op_KeepWatch 0 ok_env,
             Op_Event 0 write_ev (Some ex_file2, None) ok_env] init_world)
     = Some [\<lparr>fileName = ''app.ini'', watch = False, cfg = Some ex_file\<rparr>]"
    by (simp add: op_defs ok_env_def write_ev_def init_world_def is_Write_def fsnotify_Write_def
        port_decoder_def)
  have ne: "ex_file \<noteq> ex_file2"
  proof
    assume "ex_file = ex_file2"
    then have "ex_file ''server'' = ex_file2 ''server''" by simp
    then have "[''port'' \<mapsto> ''8080''] ''port'' = [''port'' \<mapsto> ''9090''] ''port''"
      by (simp add: ex_file_def ex_file2_def)
    then show False by simp
  qed
  have a: "cfg (heap (loop_turn ex_notify write_ev (Some ex_file2, None) ok_env ex_world) ! 0) = Some ex_file"
    by (simp add: op_defs ex_world_def ex_notify_def write_ev_def is_Write_def fsnotify_Write_def)
  have b: "cfg (heap (update 0 (fst (load (Some ex_file2, None) ok_env 0 ex_world))) ! 0) = Some ex_file2"
    by (simp add: op_defs ex_world_def ok_env_def)
  have "loop_turn ex_notify write_ev (Some ex_file2, None) ok_env ex_world
       \<noteq> update 0 (fst (load (Some ex_file2, None) ok_env 0 ex_world))"
    using a b ne by auto
  then show ?thesis using a b c by (simp add: is_Write_write_ev)
qed

text \<open>
  C6. An event whose operation does not contain the write bit makes a goroutine of
  either kind do nothing: the package state after the turn is the state before it, so
  nothing was loaded and no callback was dispatched.
\<close>

theorem other_event_ignored:
  assumes "\<not> is_Write ev"
  shows "loop_turn l ev r env w = w"
  using assms
  by (simp add: loop_turn_def keepWatch_loop_def newKeepWatch_loop_def split: loop_kind.splits)

text \<open>A \<^verbatim>\<open>Chmod\<close> event while the file on disk has changed.\<close>

theorem other_event_ignored_witness:
  "\<not> is_Write chmod_ev
   \<and> loop_turn ex_loop chmod_ev (Some ex_file2, None) ok_env ex_world = ex_world
   \<and> loop_turn ex_notify chmod_ev (Some ex_file2, None) ok_env ex_world = ex_world"
  using other_event_ignored [OF not_is_Write_chmod_ev, of ex_loop "(Some ex_file2, None)" ok_env ex_world]
    other_event_ignored [OF not_is_Write_chmod_ev, of ex_notify "(Some ex_file2, None)" ok_env ex_world]
    not_is_Write_chmod_ev
  by simp

text \<open>
  C7 says that KeepWatch starts no second goroutine when one is running. Evaluated on a
  run of the exported interface: after \<^verbatim>\<open>LoadIniConfig\<close>, one registration and two
  calls of \<^verbatim>\<open>KeepWatch\<close>, two goroutines watch the file for the same handle, and one
  write to the file, which each of them receives, dispatches the callback twice.
  \<^verbatim>\<open>newKeepWatch\<close> neither reads nor sets \<^verbatim>\<open>fd.watch\<close>, the flag by which
  \<^verbatim>\<open>load\<close> guards \<^verbatim>\<open>keepWatch\<close>.
\<close>

theorem KeepWatch_twice_two_loops:
  "map_option loops
     (run [Op_LoadIniConfig ''app.ini'' (Some ex_file, None) (Some ex_file, None) port_decoder [],
           Op_Register 0 1,
           Op_KeepWatch 0 ok_env,
           Op_KeepWatch 0 ok_env] init_world) = Some [ex_notify, ex_notify]
   \<and> map_option dispatched
     (run [Op_LoadIniConfig ''app.ini'' (Some ex_file, None) (Some ex_file, None) port_decoder [],
           Op_Register 0 1,
           Op_KeepWatch 0 ok_env,
           Op_KeepWatch 0 ok_env,
           Op_Event 0 write_ev (Some ex_file2, None) ok_env,
           Op_Event 1 write_ev (Some ex_file2, None) ok_env] init_world) = Some [1, 1]"
  by (simp add: op_defs ex_defs)

text \<open>
  C8. The watch that \<^verbatim>\<open>load\<close> starts is started once per handle, at the first
  successful load. For any sequence of loads on a handle: once the flag is true it stays
  true and no later load calls the watch facility or starts a goroutine; the flag goes
  from false to true at most once; the loads that fail before the first successful one
  start nothing, and the first successful load calls \<^verbatim>\<open>keepWatch\<close> once, whatever the
  facility answers; when the facility accepts the path this starts exactly one goroutine
  watching the handle's file and sets the flag, and the later loads add nothing. And in
  every state the package reaches from its start, \<^verbatim>\<open>keepWatch\<close> has run at most once
  for a handle, a handle has at most one goroutine of \<^verbatim>\<open>keepWatch\<close>, and no event
  consumed by a goroutine calls the facility or starts another goroutine.
\<close>

theorem load_arms_watch_once:
  "(a < length (heap w) \<and> watch (heap w ! a) \<longrightarrow>
      loops (loads rs a w) = loops w
    \<and> newWatcher_calls (loads rs a w) = newWatcher_calls w
    \<and> watch (heap (loads rs a w) ! a))
   \<and> length (flips rs a w) \<le> 1
   \<and> (a < length (heap w) \<and> \<not> watch (heap w ! a) \<and> (\<forall>x \<in> set pre. snd (fst x) \<noteq> None)
        \<and> snd r = None \<longrightarrow>
        loops (loads pre a w) = loops w
      \<and> newWatcher_calls (loads pre a w) = newWatcher_calls w
      \<and> \<not> watch (heap (loads pre a w) ! a)
      \<and> newWatcher_calls (loads (pre @ [(r, env)]) a w) = newWatcher_calls w @ [(ReloadLoop, a)]
      \<and> (newWatcher_err env = None \<and> add_err env = None \<longrightarrow>
            loops (loads (pre @ (r, env) # post) a w) =
              loops w @ [\<lparr>loop_kind = ReloadLoop, loop_fd = a,
                          loop_paths = [fileName (heap w ! a)]\<rparr>]
          \<and> newWatcher_calls (loads (pre @ (r, env) # post) a w) =
              newWatcher_calls w @ [(ReloadLoop, a)]
          \<and> watch (heap (loads (pre @ (r, env) # post) a w) ! a)))
   \<and> (run xs init_world = Some v \<longrightarrow>
        length (reload_calls b v) \<le> 1
      \<and> length (reload_loops b v) \<le> 1
      \<and> (step (Op_Event i ev r' env') v = Some v' \<longrightarrow>
            loops v' = loops v \<and> newWatcher_calls v' = newWatcher_calls v))"
proof -
  have A: "loops (loads rs a w) = loops w
    \<and> newWatcher_calls (loads rs a w) = newWatcher_calls w
    \<and> watch (heap (loads rs a w) ! a)"
    if "a < length (heap w) \<and> watch (heap w ! a)"
    using that by (simp add: loads_watching loads_watch_mono)
  have B: "length (flips rs a w) \<le> 1" by (rule flips_at_most_once)
  have C: "loops (loads pre a w) = loops w
      \<and> newWatcher_calls (loads pre a w) = newWatcher_calls w
      \<and> \<not> watch (heap (loads pre a w) ! a)
      \<and> newWatcher_calls (loads (pre @ [(r, env)]) a w) = newWatcher_calls w @ [(ReloadLoop, a)]
      \<and> (newWatcher_err env = None \<and> add_err env = None \<longrightarrow>
            loops (loads (pre @ (r, env) # post) a w) =
              loops w @ [\<lparr>loop_kind = ReloadLoop, loop_fd = a,
                          loop_paths = [fileName (heap w ! a)]\<rparr>]
          \<and> newWatcher_calls (loads (pre @ (r, env) # post) a w) =
              newWatcher_calls w @ [(ReloadLoop, a)]
          \<and> watch (heap (loads (pre @ (r, env) # post) a w) ! a))"
    if h: "a < length (heap w) \<and> \<not> watch (heap w ! a) \<and> (\<forall>x \<in> set pre. snd (fst x) \<noteq> None)
        \<and> snd r = None"
  proof -
    let ?w1 = "loads pre a w"
    have p: "loops ?w1 = loops w" "newWatcher_calls ?w1 = newWatcher_calls w"
      "\<not> watch (heap ?w1 ! a)"
      using h loads_all_failed [of pre a w a] by simp_all
    have l: "a < length (heap ?w1)" using h by (simp add: loads_length)
    let ?w2 = "fst (load r env a ?w1)"
    have c: "newWatcher_calls ?w2 = newWatcher_calls w @ [(ReloadLoop, a)]"
      using load_first_call [OF l p(3), of r env] h p(2) by simp
    have l2: "a < length (heap ?w2)" using l by (simp add: load_frame)
    have e: "loads (pre @ (r, env) # post) a w = loads post a ?w2"
      "loads (pre @ [(r, env)]) a w = ?w2"
      by (simp_all add: loads_append)
    have s: "loops (loads post a ?w2) =
          loops w @ [\<lparr>loop_kind = ReloadLoop, loop_fd = a, loop_paths = [fileName (heap w ! a)]\<rparr>]
        \<and> newWatcher_calls (loads post a ?w2) = newWatcher_calls w @ [(ReloadLoop, a)]
        \<and> watch (heap (loads post a ?w2) ! a)"
      if ok: "newWatcher_err env = None \<and> add_err env = None"
    proof -
      have "loops ?w2 =
          loops w @ [\<lparr>loop_kind = ReloadLoop, loop_fd = a, loop_paths = [fileName (heap w ! a)]\<rparr>]"
        "watch (heap ?w2 ! a)"
        using load_first_success [OF l p(3), of r env] h ok p(1) by (simp_all add: loads_fileName)
      then show ?thesis
        using l2 c by (simp add: loads_watching loads_watch_mono)
    qed
    show ?thesis
      using p c s by (simp add: e)
  qed
  have D: "length (reload_calls b v) \<le> 1
      \<and> length (reload_loops b v) \<le> 1
      \<and> (step (Op_Event i ev r' env') v = Some v' \<longrightarrow>
            loops v' = loops v \<and> newWatcher_calls v' = newWatcher_calls v)"
    if "run xs init_world = Some v"
    using that reachable_once [of xs v b] reachable_event_no_spawn [of xs v i ev r' env' v']
    by simp
  show ?thesis using A B C D by blast
qed

text \<open>A new handle: a failing load, a successful one, a later one; and the handle of
  the scenario, which is reached by a run and whose goroutine consumes a write.\<close>

theorem load_arms_watch_once_witness:
  "0 < length (heap fresh_world) \<and> \<not> watch (heap fresh_world ! 0)
   \<and> snd bad_load \<noteq> None
   \<and> loops (loads [(bad_load, ok_env)] 0 fresh_world) = []
   \<and> loops (loads [(bad_load, ok_env), ((Some ex_file, None), ok_env),
                    ((Some ex_file2, None), ok_env)] 0 fresh_world) = [ex_loop]
   \<and> newWatcher_calls (loads [(bad_load, ok_env), ((Some ex_file, None), ok_env),
                    ((Some ex_file2, None), ok_env)] 0 fresh_world) = [(ReloadLoop, 0)]
   \<and> length (flips [(bad_load, ok_env), ((Some ex_file, None), ok_env),
                     ((Some ex_file2, None), ok_env)] 0 fresh_world) \<le> 1
   \<and> newWatcher_calls (loads [(bad_load, ok_env), ((Some ex_file, None), no_watcher_env)]
         0 fresh_world) = [(ReloadLoop, 0)]
   \<and> watch (heap ex_world ! 0)
   \<and> loops (loads [((Some ex_file2, None), ok_env)] 0 ex_world) = [ex_loop]
   \<and> run [Op_NewIniFile ''app.ini'' (Some ex_file, None) ok_env, Op_Register 0 1,
          Op_Register 0 2 :: string op] init_world = Some ex_world
   \<and> length (reload_calls 0 ex_world) \<le> 1
   \<and> length (reload_loops 0 ex_world) \<le> 1
   \<and> step (Op_Event 0 write_ev (Some ex_file2, None) ok_env :: string op) ex_world
       = Some (loop_turn ex_loop write_ev (Some ex_file2, None) ok_env ex_world)
   \<and> loops (loop_turn ex_loop write_ev (Some ex_file2, None) ok_env ex_world) = [ex_loop]"
proof -
  have f: "0 < length (heap fresh_world)" "\<not> watch (heap fresh_world ! 0)"
    "\<forall>x \<in> set [(bad_load, ok_env)]. snd (fst x) \<noteq> None"
    "snd (Some ex_file, None) = None" "newWatcher_err ok_env = None" "add_err ok_env = None"
    "loops fresh_world = []" "fileName (heap fresh_world ! 0) = ''app.ini''"
    "newWatcher_calls fresh_world = []" "snd bad_load \<noteq> None"
    by (simp_all add: ex_defs alloc_def)
  have g: "0 < length (heap ex_world)" "watch (heap ex_world ! 0)" "loops ex_world = [ex_loop]"
    by (simp_all add: ex_defs)
  have s: "step (Op_Event 0 write_ev (Some ex_file2, None) ok_env :: string op) ex_world
       = Some (loop_turn ex_loop write_ev (Some ex_file2, None) ok_env ex_world)"
    by (simp add: ex_world_def ex_loop_def write_ev_def)
  show ?thesis
    using load_arms_watch_once [of 0 fresh_world
        "[(bad_load, ok_env), ((Some ex_file, None), ok_env), ((Some ex_file2, None), ok_env)]"
        "[(bad_load, ok_env)]" "(Some ex_file, None)" ok_env "[((Some ex_file2, None), ok_env)]"
        "[Op_NewIniFile ''app.ini'' (Some ex_file, None) ok_env, Op_Register 0 1,
          Op_Register 0 2 :: string op]" ex_world 0 0 write_ev "(Some ex_file2, None)" ok_env
        "loop_turn ex_loop write_ev (Some ex_file2, None) ok_env ex_world"]
      load_arms_watch_once [of 0 ex_world "[((Some ex_file2, None), ok_env)]"
        "[]" "(Some ex_file, None)" ok_env "[]" "[] :: string op list" init_world 0 0 write_ev
        "(Some ex_file2, None)" ok_env init_world]
      load_arms_watch_once [of 0 fresh_world "[]" "[(bad_load, ok_env)]" "(Some ex_file, None)"
        no_watcher_env "[]" "[] :: string op list" init_world 0 0 write_ev
        "(Some ex_file2, None)" ok_env init_world]
      f g s ex_world_reachable
    by (simp add: ex_loop_def)
qed

text \<open>
  C9, amended. LoadIniConfig parses the file, makes a new handle, parses the file again
  and decodes it into the record. It starts no goroutine, does not call the watch
  facility, dispatches nothing and leaves the registry as it is, and it returns a handle
  exactly when it returns no error. When both parses succeed, the record is the
  decoder's, a decode error comes back wrapped in a new error
  (\<^verbatim>\<open>failed to map cfg err: \<close> followed by the decoder's message) with no handle, and
  otherwise the handle is the new object with the file name, the flag false and the
  second parse as snapshot. For a path that is not registered and whose first
  parse succeeds, the record, the handle's file name and its snapshot are those of
  NewIniFile followed by MapContents on the handle it makes.
\<close>

theorem LoadIniConfig_open_then_decode:
  "(LoadIniConfig name r1 r2 mapTo c w = Some (w', c', h', e') \<longrightarrow>
      loops w' = loops w \<and> newWatcher_calls w' = newWatcher_calls w
      \<and> iniFiler w' = iniFiler w \<and> dispatched w' = dispatched w
      \<and> (h' = None \<longleftrightarrow> e' \<noteq> None))
   \<and> (snd r1 = None \<and> r2 = (Some f, None) \<and> mapTo f c = (c2, e2) \<longrightarrow>
      (\<exists>w2. LoadIniConfig name r1 r2 mapTo c w =
               Some (w2, c2, (if e2 = None then Some (length (heap w)) else None),
                     map_option (Errorf ''failed to map cfg err: '') e2)
           \<and> heap w2 ! length (heap w) = \<lparr>fileName = name, watch = False, cfg = Some f\<rparr>))
   \<and> (map_get (iniFiler w) name = None \<and> snd r1 = None \<longrightarrow>
      map_option (decoded (length (heap w))) (LoadIniConfig name r1 r2 mapTo c w) =
      map_option (decoded (length (heap w)))
        (MapContents r2 mapTo (length (heap w)) c (fst (NewIniFile name r1 env w))))"
proof -
  have A: "loops w' = loops w \<and> newWatcher_calls w' = newWatcher_calls w
      \<and> iniFiler w' = iniFiler w \<and> dispatched w' = dispatched w
      \<and> (h' = None \<longleftrightarrow> e' \<noteq> None)"
    if a: "LoadIniConfig name r1 r2 mapTo c w = Some (w', c', h', e')"
    using LoadIniConfig_frame [OF a] a
    by (auto simp: LoadIniConfig_def Let_def split: option.splits prod.splits)
  have B: "\<exists>w2. LoadIniConfig name r1 r2 mapTo c w =
               Some (w2, c2, (if e2 = None then Some (length (heap w)) else None),
                     map_option (Errorf ''failed to map cfg err: '') e2)
           \<and> heap w2 ! length (heap w) = \<lparr>fileName = name, watch = False, cfg = Some f\<rparr>"
    if "snd r1 = None \<and> r2 = (Some f, None) \<and> mapTo f c = (c2, e2)"
    using that
    by (cases e2) (simp_all add: LoadIniConfig_def MapContents_def Let_def heap_alloc_set_cfg)
  have C: "map_option (decoded (length (heap w))) (LoadIniConfig name r1 r2 mapTo c w) =
      map_option (decoded (length (heap w)))
        (MapContents r2 mapTo (length (heap w)) c (fst (NewIniFile name r1 env w)))"
    if a: "map_get (iniFiler w) name = None \<and> snd r1 = None"
  proof -
  let ?a = "length (heap w)"
  let ?w0 = "alloc \<lparr>fileName = name, watch = False, cfg = None\<rparr> w"
  let ?w1 = "fst (NewIniFile name r1 env w)"
  let ?wl = "alloc \<lparr>fileName = name, watch = False, cfg = fst r1\<rparr> w"
  have n: "fileName (heap ?w1 ! ?a) = name" "?a < length (heap ?w1)"
    using a by (simp_all add: NewIniFile_fresh Let_def load_frame alloc_def)
  have l: "fileName (heap ?wl ! ?a) = name" "?a < length (heap ?wl)"
    by (simp_all add: alloc_def)
  have m1: "map_option (decoded ?a) (MapContents r2 mapTo ?a c ?w1) =
     (case snd r2 of Some err \<Rightarrow> Some (c, name, fst r2)
      | None \<Rightarrow> (case fst r2 of None \<Rightarrow> None | Some f \<Rightarrow> Some (fst (mapTo f c), name, fst r2)))"
    using n
    by (auto simp: MapContents_def decoded_def Let_def set_cfg_def heap_update_simps
        split: option.splits prod.splits)
  have m2: "map_option (decoded ?a) (LoadIniConfig name r1 r2 mapTo c w) =
     (case snd r2 of Some err \<Rightarrow> Some (c, name, fst r2)
      | None \<Rightarrow> (case fst r2 of None \<Rightarrow> None | Some f \<Rightarrow> Some (fst (mapTo f c), name, fst r2)))"
    using a l
    by (auto simp: LoadIniConfig_def MapContents_def decoded_def Let_def set_cfg_def heap_update_simps
        split: option.splits prod.splits)
  show ?thesis
    by (simp add: m1 m2)
  qed
  show ?thesis using A B C by blast
qed

text \<open>The scenario file decoded into the port record.\<close>

theorem LoadIniConfig_open_then_decode_witness:
  "LoadIniConfig ''app.ini'' (Some ex_file, None) (Some ex_file, None) port_decoder [] init_world
     = Some (ex_loaded, ''8080'', Some 0, None)
   \<and> loops ex_loaded = loops init_world \<and> iniFiler ex_loaded = iniFiler init_world
   \<and> port_decoder ex_file [] = (''8080'', None)
   \<and> heap ex_loaded ! 0 = \<lparr>fileName = ''app.ini'', watch = False, cfg = Some ex_file\<rparr>
   \<and> map_get (iniFiler init_world) ''app.ini'' = None
   \<and> map_option (decoded 0)
       (MapContents (Some ex_file, None) port_decoder 0 []
          (fst (NewIniFile ''app.ini'' (Some ex_file, None) ok_env init_world)))
     = Some (''8080'', ''app.ini'', Some ex_file)"
proof -
  have a: "LoadIniConfig ''app.ini'' (Some ex_file, None) (Some ex_file, None) port_decoder []
      init_world = Some (ex_loaded, ''8080'', Some 0, None)"
    by (simp add: op_defs ex_defs)
  have b: "snd (Some ex_file, None) = None" "port_decoder ex_file [] = (''8080'', None)"
    "map_get (iniFiler init_world) ''app.ini'' = None" "length (heap init_world) = 0"
    "decoded 0 (ex_loaded, ''8080'', Some 0, None) = (''8080'', ''app.ini'', Some ex_file)"
    by (simp_all add: op_defs ex_defs decoded_def)
  note t = LoadIniConfig_open_then_decode [of "''app.ini''" "(Some ex_file, None)"
      "(Some ex_file, None)" port_decoder "[]" init_world ex_loaded "''8080''" "Some 0" None
      ex_file "''8080''" None ok_env]
  have c: "loops ex_loaded = loops init_world \<and> iniFiler ex_loaded = iniFiler init_world"
    using t a by simp
  have "map_option (decoded 0)
       (LoadIniConfig ''app.ini'' (Some ex_file, None) (Some ex_file, None) port_decoder [] init_world)
     = map_option (decoded 0)
       (MapContents (Some ex_file, None) port_decoder 0 []
          (fst (NewIniFile ''app.ini'' (Some ex_file, None) ok_env init_world)))"
    using t b(1,3,4) by simp
  then have d: "map_option (decoded 0)
       (MapContents (Some ex_file, None) port_decoder 0 []
          (fst (NewIniFile ''app.ini'' (Some ex_file, None) ok_env init_world)))
     = Some (''8080'', ''app.ini'', Some ex_file)"
    by (simp only: a b(5) option.map)
  have e: "heap ex_loaded ! 0 = \<lparr>fileName = ''app.ini'', watch = False, cfg = Some ex_file\<rparr>"
    by (simp add: ex_loaded_def)
  show ?thesis
    using a b(2,3) c d e by simp
qed

text \<open>C9 as stated fails on a decode error: what LoadIniConfig returns is not the
  decoder's error but a new one.\<close>

theorem LoadIniConfig_wraps_decode_error_counterexample:
  "snd (bad_decoder ex_file []) = Some (Error ''bad type'')
   \<and> map_option (snd \<circ> snd \<circ> snd)
       (LoadIniConfig ''app.ini'' (Some ex_file, None) (Some ex_file, None) bad_decoder [] init_world)
     = Some (Some (Error ''failed to map cfg err: bad type''))
   \<and> map_option (snd \<circ> snd \<circ> snd)
       (LoadIniConfig ''app.ini'' (Some ex_file, None) (Some ex_file, None) bad_decoder [] init_world)
     \<noteq> Some (Some (Error ''bad type''))"
  by (simp add: op_defs ex_defs)

text \<open>
  C10. When the path is not registered and the file parses, NewIniFile returns the new
  handle and a nil error even if the watcher cannot be created or the path cannot be
  added to it: \<^verbatim>\<open>keepWatch\<close> was called and its error dropped, the handle holds the
  parsed file and can be read, its flag is false, and the only goroutine that may have
  been started has a watcher without any path, so it never receives an event.
\<close>

theorem NewIniFile_watch_failure:
  assumes "map_get (iniFiler w) name = None" and "r = (Some f, None)"
    and "newWatcher_err env \<noteq> None \<or> add_err env \<noteq> None"
  shows "snd (NewIniFile name r env w) = (Some (length (heap w)), None)
       \<and> heap (fst (NewIniFile name r env w)) ! length (heap w)
           = \<lparr>fileName = name, watch = False, cfg = Some f\<rparr>
       \<and> ReadKey (length (heap w)) (fst (NewIniFile name r env w)) s k d \<noteq> None
       \<and> newWatcher_calls (fst (NewIniFile name r env w)) =
           newWatcher_calls w @ [(ReloadLoop, length (heap w))]
       \<and> loops (fst (NewIniFile name r env w)) =
           loops w @ (if newWatcher_err env = None
                      then [\<lparr>loop_kind = ReloadLoop, loop_fd = length (heap w), loop_paths = []\<rparr>]
                      else [])"
proof -
  let ?a = "length (heap w)"
  let ?w0 = "alloc \<lparr>fileName = name, watch = False, cfg = None\<rparr> w"
  let ?w2 = "fst (load r env ?a ?w0)"
  have h: "heap ?w2 = heap w @ [\<lparr>fileName = name, watch = False, cfg = Some f\<rparr>]"
    "newWatcher_calls ?w2 = newWatcher_calls w @ [(ReloadLoop, ?a)]"
    "loops ?w2 = loops w @ (if newWatcher_err env = None
                      then [\<lparr>loop_kind = ReloadLoop, loop_fd = ?a, loop_paths = []\<rparr>]
                      else [])"
    using assms(2,3)
    by (auto simp: load_def keepWatch_def prim_defs Let_def split: option.splits)
  show ?thesis
    using assms(2) h by (simp add: NewIniFile_fresh [OF assms(1)] Let_def ReadKey_def)
qed

text \<open>The scenario file opened while no watcher can be created.\<close>

theorem NewIniFile_watch_failure_witness:
  "map_get (iniFiler init_world) ''app.ini'' = None
   \<and> newWatcher_err no_watcher_env \<noteq> None
   \<and> snd (NewIniFile ''app.ini'' (Some ex_file, None) no_watcher_env init_world) = (Some 0, None)
   \<and> heap (fst (NewIniFile ''app.ini'' (Some ex_file, None) no_watcher_env init_world)) ! 0
       = \<lparr>fileName = ''app.ini'', watch = False, cfg = Some ex_file\<rparr>
   \<and> ReadKey 0 (fst (NewIniFile ''app.ini'' (Some ex_file, None) no_watcher_env init_world))
       ''server'' ''port'' ''0'' \<noteq> None
   \<and> newWatcher_calls (fst (NewIniFile ''app.ini'' (Some ex_file, None) no_watcher_env init_world))
       = [(ReloadLoop, 0)]
   \<and> loops (fst (NewIniFile ''app.ini'' (Some ex_file, None) no_watcher_env init_world)) = []"
proof -
  have a: "map_get (iniFiler init_world) ''app.ini'' = None"
    by (simp add: map_get_def init_world_def)
  have b: "newWatcher_err no_watcher_env \<noteq> None \<or> add_err no_watcher_env \<noteq> None"
    by (simp add: no_watcher_env_def)
  have c: "length (heap init_world) = 0" "loops init_world = []"
    "newWatcher_calls init_world = []" "newWatcher_err no_watcher_env \<noteq> None"
    by (simp_all add: init_world_def no_watcher_env_def)
  show ?thesis
    using NewIniFile_watch_failure [of init_world "''app.ini''" "(Some ex_file, None)" ex_file
        no_watcher_env "''server''" "''port''" "''0''", OF a refl b]
      a c
    by simp
qed

end
